theory Spec2Isabelle
  imports Complex_Main
begin

section \<open>The connection-state store and its actions\<close>

text \<open>
  A shallow embedding of \<^verbatim>\<open>createWeb3ReactStoreAndActions\<close>: the zustand store, the
  \<^verbatim>\<open>nullifier\<close> counter closed over by the four actions, and the arrays of account
  strings that callers hand in and the store keeps by reference.
\<close>

subsection \<open>JavaScript numbers\<close>

text \<open>
  A JavaScript number is an IEEE double: a finite value, which is a rational, or NaN or
  one of the two infinities. The code never computes with a chain id; it only tests
  integrality, compares with the exactly representable constants \<open>0\<close> and
  \<open>MAX_SAFE_CHAIN_ID\<close>, and tests truthiness, so a finite double is modelled by the
  rational it denotes (\<open>-0\<close> is \<open>0\<close>: the tests do not tell them apart).
\<close>

datatype number = Finite rat | NaN | PosInfinity | NegInfinity

text \<open>\<^verbatim>\<open>Number.isInteger(x)\<close>\<close>

fun isInteger :: "number \<Rightarrow> bool" where
  "isInteger (Finite q) = (of_int \<lfloor>q\<rfloor> = q)"
| "isInteger NaN = False"
| "isInteger PosInfinity = False"
| "isInteger NegInfinity = False"

text \<open>\<^verbatim>\<open>x <= c\<close> and \<^verbatim>\<open>x > c\<close> for a finite constant \<open>c\<close>: every comparison with NaN is false.\<close>

fun number_le :: "number \<Rightarrow> rat \<Rightarrow> bool" where
  "number_le (Finite q) c = (q \<le> c)"
| "number_le NaN c = False"
| "number_le PosInfinity c = False"
| "number_le NegInfinity c = True"

fun number_gt :: "number \<Rightarrow> rat \<Rightarrow> bool" where
  "number_gt (Finite q) c = (q > c)"
| "number_gt NaN c = False"
| "number_gt PosInfinity c = True"
| "number_gt NegInfinity c = False"

text \<open>Truthiness of a number: \<open>0\<close> and NaN are falsy.\<close>

fun truthy :: "number \<Rightarrow> bool" where
  "truthy (Finite q) = (q \<noteq> 0)"
| "truthy NaN = False"
| "truthy PosInfinity = True"
| "truthy NegInfinity = True"

text \<open>
  The counter \<^verbatim>\<open>nullifier\<close> is a number that starts at \<open>0\<close> and is only ever
  incremented. Doubles count exactly up to \<open>2^53\<close>; there \<^verbatim>\<open>n + 1\<close> rounds back to
  \<open>2^53\<close>, so the counter stops moving.
\<close>

definition MAX_EXACT :: nat where
  "MAX_EXACT = 9007199254740992"

definition increment :: "nat \<Rightarrow> nat" where
  "increment n = (if n < MAX_EXACT then n + 1 else n)"

subsection \<open>Validation\<close>

definition MAX_SAFE_CHAIN_ID :: rat where
  "MAX_SAFE_CHAIN_ID = 4503599627370476"

datatype error = InvalidChainId number | InvalidAccount string

definition validateChainId :: "number \<Rightarrow> error + unit" where
  "validateChainId chainId =
     (if \<not> isInteger chainId \<or> number_le chainId 0 \<or> number_gt chainId MAX_SAFE_CHAIN_ID
      then Inl (InvalidChainId chainId)
      else Inr ())"

text \<open>
  \<^verbatim>\<open>getAddress\<close> comes from the library \<^verbatim>\<open>@ethersproject/address\<close>, which is not part
  of the repository: it is a parameter of the model, \<open>None\<close> standing for the
  exception it throws on a string that is no valid address.
\<close>

type_synonym address_normaliser = "string \<Rightarrow> string option"

definition validateAccount :: "address_normaliser \<Rightarrow> string \<Rightarrow> error + string" where
  "validateAccount getAddress account =
     (case getAddress account of None \<Rightarrow> Inl (InvalidAccount account) | Some a \<Rightarrow> Inr a)"

subsection \<open>State, patches and the engine\<close>

text \<open>
  An accounts array is a JavaScript object: the state and the patch hold a reference to
  it, and the heap gives the array each reference denotes.
\<close>

type_synonym ref = nat

type_synonym heap = "ref \<Rightarrow> string list"

record ('a, 's, 'w) Web3ReactState =
  chainId :: "number option"
  accounts :: "ref option"
  accountIndex :: "number option"
  activating :: bool
  addingChain :: "'a option"
  switchingChain :: "'s option"
  watchingAsset :: "'w option"

text \<open>
  A property of a patch object is absent, or present with a value that may be
  \<^verbatim>\<open>undefined\<close>. Reading the property gives \<^verbatim>\<open>undefined\<close> in the first case too;
  \<^verbatim>\<open>Object.getOwnPropertyNames\<close> tells the two apart.
\<close>

datatype 'v property = Absent | Present "'v option"

fun get :: "'v property \<Rightarrow> 'v option" where
  "get Absent = None"
| "get (Present v) = v"

fun hasOwn :: "'v property \<Rightarrow> bool" where
  "hasOwn Absent = False"
| "hasOwn (Present v) = True"

record ('a, 's, 'w) Web3ReactStateUpdate =
  upd_chainId :: "number property"
  upd_accounts :: "ref property"
  upd_accountIndex :: "number property"
  upd_addingChain :: "'a property"
  upd_switchingChain :: "'s property"
  upd_watchingAsset :: "'w property"

definition DEFAULT_STATE :: "('a, 's, 'w) Web3ReactState" where
  "DEFAULT_STATE =
     \<lparr> chainId = None, accounts = None, accountIndex = None, activating = False,
       addingChain = None, switchingChain = None, watchingAsset = None \<rparr>"

text \<open>What the closures of \<^verbatim>\<open>createWeb3ReactStoreAndActions\<close> share.\<close>

record ('a, 's, 'w) engine =
  store :: "('a, 's, 'w) Web3ReactState"
  nullifier :: nat
  heap :: heap

definition createWeb3ReactStoreAndActions :: "heap \<Rightarrow> ('a, 's, 'w) engine" where
  "createWeb3ReactStoreAndActions h = \<lparr> store = DEFAULT_STATE, nullifier = 0, heap = h \<rparr>"

subsection \<open>The actions\<close>

text \<open>
  \<^verbatim>\<open>startActivation\<close> returns a closure over \<^verbatim>\<open>nullifierCached\<close>; the model returns
  the captured value, and \<open>cancelActivation\<close> is the closure's body.
  \<^verbatim>\<open>store.setState\<close> merges the object it is given into the state.
\<close>

definition startActivation :: "('a, 's, 'w) engine \<Rightarrow> nat \<times> ('a, 's, 'w) engine" where
  "startActivation e =
     (let nullifierCached = increment (nullifier e)
      in (nullifierCached,
          e\<lparr> nullifier := nullifierCached, store := DEFAULT_STATE\<lparr> activating := True \<rparr> \<rparr>))"

definition cancelActivation ::
  "nat \<Rightarrow> ('a, 's, 'w) engine \<Rightarrow> ('a, 's, 'w) Web3ReactState \<times> ('a, 's, 'w) engine" where
  "cancelActivation nullifierCached e =
     (let e' = (if nullifier e = nullifierCached
                then e\<lparr> store := (store e)\<lparr> activating := False, addingChain := None,
                                            switchingChain := None \<rparr> \<rparr>
                else e)
      in (store e', e'))"

text \<open>
  The loop of \<^verbatim>\<open>update\<close> over \<^verbatim>\<open>stateUpdate.accounts\<close>, from index \<open>i\<close>: each entry
  is overwritten in place by its validated form, and the first entry that fails stops
  the loop with the entries before it already rewritten.
\<close>

function validateAccountsFrom ::
  "address_normaliser \<Rightarrow> ref \<Rightarrow> nat \<Rightarrow> heap \<Rightarrow> error option \<times> heap" where
  "validateAccountsFrom getAddress r i h =
     (if i < length (h r)
      then (case validateAccount getAddress (h r ! i) of
              Inl err \<Rightarrow> (Some err, h)
            | Inr a \<Rightarrow> validateAccountsFrom getAddress r (Suc i) (h(r := (h r)[i := a])))
      else (None, h))"
  by pat_completeness auto
termination
  by (relation "measure (\<lambda>(g, r, i, h). length (h r) - i)") auto

text \<open>The updater function that \<^verbatim>\<open>update\<close> passes to \<^verbatim>\<open>store.setState\<close>.\<close>

definition nextState ::
  "('a, 's, 'w) Web3ReactStateUpdate \<Rightarrow> ('a, 's, 'w) Web3ReactState \<Rightarrow>
   ('a, 's, 'w) Web3ReactState" where
  "nextState stateUpdate existingState =
     (let chainId' = (case get (upd_chainId stateUpdate) of
                        Some c \<Rightarrow> Some c | None \<Rightarrow> chainId existingState);
          accounts' = (case get (upd_accounts stateUpdate) of
                         Some r \<Rightarrow> Some r | None \<Rightarrow> accounts existingState);
          activating' =
            (if activating existingState \<and> (case chainId' of None \<Rightarrow> False | Some c \<Rightarrow> truthy c)
                \<and> accounts' \<noteq> None
             then False else activating existingState);
          accountIndex' = (if hasOwn (upd_accountIndex stateUpdate)
                           then get (upd_accountIndex stateUpdate)
                           else accountIndex existingState);
          addingChain' = (if hasOwn (upd_addingChain stateUpdate)
                          then get (upd_addingChain stateUpdate)
                          else addingChain existingState);
          switchingChain' = (if hasOwn (upd_switchingChain stateUpdate)
                             then get (upd_switchingChain stateUpdate)
                             else switchingChain existingState);
          watchingAsset' = (if hasOwn (upd_watchingAsset stateUpdate)
                            then get (upd_watchingAsset stateUpdate)
                            else watchingAsset existingState)
      in \<lparr> chainId = chainId', accounts = accounts', accountIndex = accountIndex',
           activating = activating', addingChain = addingChain',
           switchingChain = switchingChain', watchingAsset = watchingAsset' \<rparr>)"

text \<open>
  \<^verbatim>\<open>update\<close>: \<open>Inl\<close> is the exception thrown by a validation. The engine is returned
  in both cases, since the loop writes to the patch's array before it throws.
\<close>

definition update ::
  "address_normaliser \<Rightarrow> ('a, 's, 'w) Web3ReactStateUpdate \<Rightarrow> bool \<Rightarrow> ('a, 's, 'w) engine \<Rightarrow>
   (error + ('a, 's, 'w) Web3ReactState) \<times> ('a, 's, 'w) engine" where
  "update getAddress stateUpdate skipValidation e =
     (case (case get (upd_chainId stateUpdate) of
              Some c \<Rightarrow> if \<not> skipValidation then validateChainId c else Inr ()
            | None \<Rightarrow> Inr ()) of
        Inl err \<Rightarrow> (Inl err, e)
      | Inr _ \<Rightarrow>
          (case (case get (upd_accounts stateUpdate) of
                   Some r \<Rightarrow> if \<not> skipValidation
                             then validateAccountsFrom getAddress r 0 (heap e)
                             else (None, heap e)
                 | None \<Rightarrow> (None, heap e)) of
             (Some err, h) \<Rightarrow> (Inl err, e\<lparr> heap := h \<rparr>)
           | (None, h) \<Rightarrow>
               (let e' = e\<lparr> heap := h, nullifier := increment (nullifier e),
                            store := nextState stateUpdate (store e) \<rparr>
                in (Inr (store e'), e'))))"

definition resetState ::
  "('a, 's, 'w) engine \<Rightarrow> ('a, 's, 'w) Web3ReactState \<times> ('a, 's, 'w) engine" where
  "resetState e =
     (DEFAULT_STATE, e\<lparr> nullifier := increment (nullifier e), store := DEFAULT_STATE \<rparr>)"

definition getState :: "('a, 's, 'w) engine \<Rightarrow> ('a, 's, 'w) Web3ReactState" where
  "getState e = store e"

subsection \<open>Sequences of calls\<close>

text \<open>
  The calls a connector can make on the actions, with the cancel closures it holds
  (each identified by the value it captured).
\<close>

datatype ('a, 's, 'w) action =
    StartActivation
  | CancelActivation nat
  | Update "('a, 's, 'w) Web3ReactStateUpdate" bool
  | ResetState
  | GetState

text \<open>The engine after one call, whatever the call returned or threw.\<close>

fun perform ::
  "address_normaliser \<Rightarrow> ('a, 's, 'w) action \<Rightarrow> ('a, 's, 'w) engine \<Rightarrow> ('a, 's, 'w) engine" where
  "perform g StartActivation e = snd (startActivation e)"
| "perform g (CancelActivation c) e = snd (cancelActivation c e)"
| "perform g (Update p skip) e = snd (update g p skip e)"
| "perform g ResetState e = snd (resetState e)"
| "perform g GetState e = e"

fun run ::
  "address_normaliser \<Rightarrow> ('a, 's, 'w) action list \<Rightarrow> ('a, 's, 'w) engine \<Rightarrow> ('a, 's, 'w) engine" where
  "run g [] e = e"
| "run g (a # as) e = run g as (perform g a e)"

text \<open>
  The calls that reach a \<^verbatim>\<open>nullifier++\<close>: \<^verbatim>\<open>startActivation\<close>, \<^verbatim>\<open>resetState\<close>, and
  an \<^verbatim>\<open>update\<close> whose validation does not throw.
\<close>

fun bumps ::
  "address_normaliser \<Rightarrow> ('a, 's, 'w) action \<Rightarrow> ('a, 's, 'w) engine \<Rightarrow> bool" where
  "bumps g StartActivation e = True"
| "bumps g (CancelActivation c) e = False"
| "bumps g (Update p skip) e = (case fst (update g p skip e) of Inl err \<Rightarrow> False | Inr s \<Rightarrow> True)"
| "bumps g ResetState e = True"
| "bumps g GetState e = False"

fun someBump ::
  "address_normaliser \<Rightarrow> ('a, 's, 'w) action list \<Rightarrow> ('a, 's, 'w) engine \<Rightarrow> bool" where
  "someBump g [] e = False"
| "someBump g (a # as) e = (bumps g a e \<or> someBump g as (perform g a e))"

text \<open>
  What a reader of the store sees: the state, and the contents of the accounts array
  it refers to.
\<close>

definition observe ::
  "('a, 's, 'w) engine \<Rightarrow> ('a, 's, 'w) Web3ReactState \<times> string list option" where
  "observe e = (store e, map_option (heap e) (accounts (store e)))"

subsection \<open>Inputs used in the examples\<close>

text \<open>
  The patch \<^verbatim>\<open>{}\<close>, from which the patches of the examples are built (\<^verbatim>\<open>{chainId: 1}\<close>
  is \<open>noProperties\<lparr>upd_chainId := Present (Some (Finite 1))\<rparr>\<close>), a fresh engine whose
  heap holds empty arrays only, and a stand-in for \<^verbatim>\<open>getAddress\<close> that accepts exactly the
  string \<open>''0xab''\<close> and normalises it to \<open>''0xAb''\<close>.
\<close>

abbreviation noProperties :: "(string, string, string) Web3ReactStateUpdate" where
  "noProperties \<equiv>
     \<lparr> upd_chainId = Absent, upd_accounts = Absent, upd_accountIndex = Absent,
       upd_addingChain = Absent, upd_switchingChain = Absent, upd_watchingAsset = Absent \<rparr>"

abbreviation freshEngine :: "(string, string, string) engine" where
  "freshEngine \<equiv> createWeb3ReactStoreAndActions (\<lambda>r. [])"

abbreviation sampleGetAddress :: address_normaliser where
  "sampleGetAddress \<equiv> (\<lambda>a. if a = ''0xab'' then Some ''0xAb'' else None)"

text \<open>
  The engine after \<^verbatim>\<open>update({accountIndex: 0, addingChain: 'c', switchingChain: 's',
  watchingAsset: 'w'})\<close> on a fresh one, and a fresh engine over a heap in which every
  array is \<^verbatim>\<open>['0xab', 'zz']\<close>.
\<close>

abbreviation busyEngine :: "(string, string, string) engine" where
  "busyEngine \<equiv>
     snd (update sampleGetAddress
       (noProperties\<lparr> upd_accountIndex := Present (Some (Finite 0)),
                      upd_addingChain := Present (Some ''c''),
                      upd_switchingChain := Present (Some ''s''),
                      upd_watchingAsset := Present (Some ''w'') \<rparr>) False freshEngine)"

abbreviation mixedEngine :: "(string, string, string) engine" where
  "mixedEngine \<equiv> createWeb3ReactStoreAndActions (\<lambda>r. [''0xab'', ''zz''])"

text \<open>
  The engine after \<^verbatim>\<open>startActivation()\<close> and \<^verbatim>\<open>update({chainId: 5, accounts: arr})\<close>, where
  \<^verbatim>\<open>arr\<close> is the array at reference \<open>0\<close> of a heap in which every array is \<^verbatim>\<open>['0xab']\<close>.
\<close>

abbreviation singletonEngine :: "(string, string, string) engine" where
  "singletonEngine \<equiv> createWeb3ReactStoreAndActions (\<lambda>r. [''0xab''])"

abbreviation connectedEngine :: "(string, string, string) engine" where
  "connectedEngine \<equiv>
     snd (update sampleGetAddress
       (noProperties\<lparr> upd_chainId := Present (Some (Finite 5)),
                      upd_accounts := Present (Some 0) \<rparr>) False
       (snd (startActivation singletonEngine)))"

section \<open>Properties\<close>

subsection \<open>The counter\<close>

declare validateAccountsFrom.simps [simp del]

lemma increment_mono: "n \<le> increment n"
  by (simp add: increment_def)

lemma increment_strict: "n < MAX_EXACT \<Longrightarrow> n < increment n"
  by (simp add: increment_def)

lemma update_cases:
  "(\<exists>err. fst (update g p skip e) = Inl err \<and> store (snd (update g p skip e)) = store e
       \<and> nullifier (snd (update g p skip e)) = nullifier e)
   \<or> (fst (update g p skip e) = Inr (nextState p (store e))
       \<and> store (snd (update g p skip e)) = nextState p (store e)
       \<and> nullifier (snd (update g p skip e)) = increment (nullifier e))"
  by (auto simp: update_def split: option.splits sum.splits prod.splits)

lemma perform_nullifier_mono: "nullifier e \<le> nullifier (perform g a e)"
proof (cases a)
  case (Update p skip)
  then show ?thesis
    using update_cases [of g p skip e] increment_mono [of "nullifier e"] by auto
qed (auto simp: startActivation_def cancelActivation_def resetState_def increment_mono Let_def)

lemma bumps_nullifier_strict:
  assumes "bumps g a e" and "nullifier e < MAX_EXACT"
  shows "nullifier e < nullifier (perform g a e)"
proof (cases a)
  case (Update p skip)
  then show ?thesis
    using assms update_cases [of g p skip e] increment_strict [of "nullifier e"] by auto
qed (use assms in \<open>auto simp: startActivation_def resetState_def increment_strict Let_def\<close>)

lemma run_nullifier_mono: "nullifier e \<le> nullifier (run g as e)"
proof (induction as arbitrary: e)
  case Nil
  show ?case by simp
next
  case (Cons a as)
  have "nullifier e \<le> nullifier (perform g a e)" by (rule perform_nullifier_mono)
  also have "\<dots> \<le> nullifier (run g as (perform g a e))" by (rule Cons.IH)
  finally show ?case by simp
qed

lemma someBump_passes:
  assumes "someBump g as e" and "c \<le> nullifier e" and "c < MAX_EXACT"
  shows "c < nullifier (run g as e)"
  using assms
proof (induction as arbitrary: e)
  case Nil
  then show ?case by simp
next
  case (Cons a as)
  show ?case
  proof (cases "bumps g a e")
    case True
    have "c < nullifier (perform g a e)"
    proof (cases "nullifier e < MAX_EXACT")
      case True
      with \<open>bumps g a e\<close> have "nullifier e < nullifier (perform g a e)"
        by (rule bumps_nullifier_strict)
      with Cons.prems(2) show ?thesis by simp
    next
      case False
      with Cons.prems(3) have "c < nullifier e" by simp
      with perform_nullifier_mono [of e g a] show ?thesis by simp
    qed
    with run_nullifier_mono [of "perform g a e" g as] show ?thesis by simp
  next
    case False
    with Cons.prems(1) have "someBump g as (perform g a e)" by simp
    moreover from Cons.prems(2) perform_nullifier_mono [of e g a]
    have "c \<le> nullifier (perform g a e)" by simp
    ultimately show ?thesis using Cons.IH Cons.prems(3) by simp
  qed
qed

lemma cancelActivation_stale:
  "nullifier e \<noteq> c \<Longrightarrow> cancelActivation c e = (store e, e)"
  by (simp add: cancelActivation_def)

lemma increment_passes:
  "c \<le> n \<Longrightarrow> c < MAX_EXACT \<Longrightarrow> c < increment n"
  by (simp add: increment_def)

lemma startActivation_captures:
  "startActivation e0 = (c, e1) \<Longrightarrow> nullifier e1 = c"
  by (auto simp: startActivation_def Let_def)

subsection \<open>Cancellation\<close>

text \<open>
  C1. Stale cancellation is a no-op. \<open>c\<close> is the value a \<^verbatim>\<open>startActivation\<close> captured;
  afterwards any calls are made, at least one of which bumps the nullifier (another
  \<^verbatim>\<open>startActivation\<close>, an \<^verbatim>\<open>update\<close> that passes validation, or \<^verbatim>\<open>resetState\<close>).
  Then the cancel closure returns the current state and changes nothing: not the
  store (so \<open>activating\<close> is not flipped), not the counter, not an array. The captured
  value is below \<open>2^53\<close>, where the counter still counts.
\<close>

theorem stale_cancel_is_noop:
  assumes "startActivation e0 = (c, e1)"
    and "c < MAX_EXACT"
    and "someBump g as e1"
  shows "cancelActivation c (run g as e1) = (store (run g as e1), run g as e1)"
proof -
  from assms(1) have "c \<le> nullifier e1"
    by (simp add: startActivation_captures)
  with assms(3) have "c < nullifier (run g as e1)"
    using assms(2) by (rule someBump_passes)
  then have "nullifier (run g as e1) \<noteq> c" by simp
  then show ?thesis by (rule cancelActivation_stale)
qed

theorem stale_cancel_is_noop_witness:
  "startActivation freshEngine = (1, snd (startActivation freshEngine))
   \<and> 1 < MAX_EXACT
   \<and> someBump sampleGetAddress
        [GetState, Update (noProperties\<lparr>upd_chainId := Present (Some (Finite 1))\<rparr>) False]
        (snd (startActivation freshEngine))
   \<and> cancelActivation 1
        (run sampleGetAddress
          [GetState, Update (noProperties\<lparr>upd_chainId := Present (Some (Finite 1))\<rparr>) False]
          (snd (startActivation freshEngine)))
      = (store (run sampleGetAddress
          [GetState, Update (noProperties\<lparr>upd_chainId := Present (Some (Finite 1))\<rparr>) False]
          (snd (startActivation freshEngine))),
         run sampleGetAddress
          [GetState, Update (noProperties\<lparr>upd_chainId := Present (Some (Finite 1))\<rparr>) False]
          (snd (startActivation freshEngine)))
   \<and> activating (store (run sampleGetAddress
          [GetState, Update (noProperties\<lparr>upd_chainId := Present (Some (Finite 1))\<rparr>) False]
          (snd (startActivation freshEngine))))"
proof -
  let ?as = "[GetState, Update (noProperties\<lparr>upd_chainId := Present (Some (Finite 1))\<rparr>) False]"
  have h1: "startActivation freshEngine = (1, snd (startActivation freshEngine))"
    by (simp add: startActivation_def createWeb3ReactStoreAndActions_def increment_def
        MAX_EXACT_def Let_def)
  have h2: "1 < MAX_EXACT" by (simp add: MAX_EXACT_def)
  have h3: "someBump sampleGetAddress ?as (snd (startActivation freshEngine))"
    by (simp add: update_def validateChainId_def MAX_SAFE_CHAIN_ID_def Let_def)
  have a: "activating (store (run sampleGetAddress ?as (snd (startActivation freshEngine))))"
    by (simp add: update_def validateChainId_def MAX_SAFE_CHAIN_ID_def nextState_def
        startActivation_def DEFAULT_STATE_def Let_def)
  from stale_cancel_is_noop [OF h1 h2 h3] h1 h2 h3 a show ?thesis by blast
qed

text \<open>
  C7. Effective cancellation. When the nullifier still equals the captured value, the
  cancel closure sets \<open>activating\<close> to false and clears \<open>addingChain\<close> and
  \<open>switchingChain\<close>; \<open>chainId\<close>, \<open>accounts\<close>, \<open>accountIndex\<close> and \<open>watchingAsset\<close>
  keep their values, and so do the counter and every array. It returns the state it
  leaves in the store.
\<close>

theorem effective_cancel_frame:
  assumes "nullifier e = c"
    and "cancelActivation c e = (s, e')"
  shows "activating s = False \<and> addingChain s = None \<and> switchingChain s = None
    \<and> chainId s = chainId (store e) \<and> accounts s = accounts (store e)
    \<and> accountIndex s = accountIndex (store e) \<and> watchingAsset s = watchingAsset (store e)
    \<and> store e' = s \<and> nullifier e' = nullifier e \<and> heap e' = heap e"
  using assms by (auto simp: cancelActivation_def)

theorem effective_cancel_frame_witness:
  "nullifier (snd (startActivation busyEngine)) = 2
   \<and> activating (store (snd (startActivation busyEngine)))
   \<and> activating (fst (cancelActivation 2 (snd (startActivation busyEngine)))) = False
   \<and> watchingAsset (fst (cancelActivation 2 (snd (startActivation busyEngine))))
      = watchingAsset (store (snd (startActivation busyEngine)))
   \<and> store (snd (cancelActivation 2 (snd (startActivation busyEngine))))
      = fst (cancelActivation 2 (snd (startActivation busyEngine)))
   \<and> heap (snd (cancelActivation 2 (snd (startActivation busyEngine))))
      = heap (snd (startActivation busyEngine))"
proof -
  let ?e = "snd (startActivation busyEngine)"
  have h1: "nullifier ?e = 2"
    by (simp add: startActivation_def update_def createWeb3ReactStoreAndActions_def
        increment_def MAX_EXACT_def Let_def)
  have h2: "cancelActivation 2 ?e = (fst (cancelActivation 2 ?e), snd (cancelActivation 2 ?e))"
    by simp
  have a: "activating (store ?e)"
    by (simp add: startActivation_def Let_def)
  from effective_cancel_frame [OF h1 h2] h1 a show ?thesis by blast
qed

subsection \<open>Starting an activation and resetting\<close>

text \<open>
  C5. Whatever the state was, \<^verbatim>\<open>startActivation\<close> leaves the default state with
  \<open>activating\<close> true in the store: \<open>chainId\<close>, \<open>accounts\<close>, \<open>accountIndex\<close>,
  \<open>addingChain\<close>, \<open>switchingChain\<close> and \<open>watchingAsset\<close> are unset.
\<close>

theorem startActivation_resets_state:
  "store (snd (startActivation e)) = DEFAULT_STATE\<lparr> activating := True \<rparr>
   \<and> chainId (store (snd (startActivation e))) = None
   \<and> accounts (store (snd (startActivation e))) = None
   \<and> accountIndex (store (snd (startActivation e))) = None
   \<and> addingChain (store (snd (startActivation e))) = None
   \<and> switchingChain (store (snd (startActivation e))) = None
   \<and> watchingAsset (store (snd (startActivation e))) = None
   \<and> activating (store (snd (startActivation e))) = True"
  by (simp add: startActivation_def DEFAULT_STATE_def Let_def)

text \<open>
  C8. \<^verbatim>\<open>resetState\<close> is idempotent: from any engine \<open>e\<close>, two calls in a row both return
  the default state and leave it in the store. And once \<^verbatim>\<open>resetState\<close> has run, the
  cancel closure of an activation started before it (capturing \<open>c\<close>, below \<open>2^53\<close>)
  changes nothing, whatever calls \<open>as\<close> came between the activation and the reset and
  whatever calls \<open>bs\<close> came after the reset.
\<close>

theorem resetState_idempotent:
  assumes "startActivation e0 = (c, e1)"
    and "c < MAX_EXACT"
  shows "fst (resetState e) = DEFAULT_STATE
    \<and> store (snd (resetState e)) = DEFAULT_STATE
    \<and> fst (resetState (snd (resetState e))) = DEFAULT_STATE
    \<and> store (snd (resetState (snd (resetState e)))) = DEFAULT_STATE
    \<and> cancelActivation c (run g bs (snd (resetState (run g as e1))))
        = (store (run g bs (snd (resetState (run g as e1)))),
           run g bs (snd (resetState (run g as e1))))"
proof -
  from assms(1) have "c \<le> nullifier e1"
    by (simp add: startActivation_captures)
  also have "\<dots> \<le> nullifier (run g as e1)" by (rule run_nullifier_mono)
  finally have "c < increment (nullifier (run g as e1))"
    using assms(2) by (rule increment_passes)
  then have "c < nullifier (snd (resetState (run g as e1)))"
    by (simp add: resetState_def)
  also have "\<dots> \<le> nullifier (run g bs (snd (resetState (run g as e1))))"
    by (rule run_nullifier_mono)
  finally have "nullifier (run g bs (snd (resetState (run g as e1)))) \<noteq> c" by simp
  then have "cancelActivation c (run g bs (snd (resetState (run g as e1))))
        = (store (run g bs (snd (resetState (run g as e1)))),
           run g bs (snd (resetState (run g as e1))))"
    by (rule cancelActivation_stale)
  then show ?thesis by (simp add: resetState_def)
qed

theorem resetState_idempotent_witness:
  "startActivation freshEngine = (1, snd (startActivation freshEngine))
   \<and> 1 < MAX_EXACT
   \<and> fst (resetState (snd (resetState freshEngine))) = DEFAULT_STATE
   \<and> store (snd (resetState (snd (resetState freshEngine)))) = DEFAULT_STATE
   \<and> cancelActivation 1
        (run sampleGetAddress [GetState] (snd (resetState
          (run sampleGetAddress [CancelActivation 1, StartActivation] (snd (startActivation freshEngine))))))
      = (store (run sampleGetAddress [GetState] (snd (resetState
          (run sampleGetAddress [CancelActivation 1, StartActivation] (snd (startActivation freshEngine)))))),
         run sampleGetAddress [GetState] (snd (resetState
          (run sampleGetAddress [CancelActivation 1, StartActivation] (snd (startActivation freshEngine))))))"
proof -
  have h1: "startActivation freshEngine = (1, snd (startActivation freshEngine))"
    by (simp add: startActivation_def createWeb3ReactStoreAndActions_def increment_def
        MAX_EXACT_def Let_def)
  have h2: "1 < MAX_EXACT" by (simp add: MAX_EXACT_def)
  from resetState_idempotent [OF h1 h2, of freshEngine sampleGetAddress "[GetState]"
      "[CancelActivation 1, StartActivation]"] h1 h2
  show ?thesis by blast
qed

subsection \<open>Updates\<close>

lemma update_chainId_rejected:
  assumes "get (upd_chainId p) = Some c" and "\<not> skip"
    and "validateChainId c = Inl err"
  shows "update g p skip e = (Inl err, e)"
  using assms by (simp add: update_def)

lemma update_without_accounts:
  assumes "get (upd_accounts p) = None"
    and "get (upd_chainId p) = None \<or> skip \<or> validateChainId (the (get (upd_chainId p))) = Inr ()"
  shows "update g p skip e =
    (Inr (nextState p (store e)),
     e\<lparr> nullifier := increment (nullifier e), store := nextState p (store e) \<rparr>)"
  using assms by (auto simp: update_def split: option.splits)

text \<open>
  C3. The chain id bound, with atomic failure. A patch whose \<open>chainId\<close> is
  \<open>4503599627370476\<close> and that has no \<open>accounts\<close> is accepted: the call returns the next
  state. With \<open>skipValidation\<close> not set, a patch whose \<open>chainId\<close> is \<open>4503599627370477\<close>,
  \<open>0\<close>, \<open>-1\<close>, or any number that is not an integer, is not positive or exceeds the bound,
  throws, and the engine after the call is the engine before it: store, counter and
  arrays.
\<close>

theorem chainId_bound_atomic:
  assumes "get (upd_chainId p) = Some c"
  shows "(c = Finite 4503599627370476 \<and> get (upd_accounts p) = None \<longrightarrow>
            update g p skip e =
              (Inr (nextState p (store e)),
               e\<lparr> nullifier := increment (nullifier e), store := nextState p (store e) \<rparr>))
    \<and> (\<not> skip \<and> (c = Finite 4503599627370477 \<or> c = Finite 0 \<or> c = Finite (- 1)
                  \<or> \<not> isInteger c \<or> number_le c 0 \<or> number_gt c MAX_SAFE_CHAIN_ID) \<longrightarrow>
            update g p skip e = (Inl (InvalidChainId c), e))"
proof (intro conjI impI)
  assume "c = Finite 4503599627370476 \<and> get (upd_accounts p) = None"
  then have "get (upd_accounts p) = None" and "validateChainId c = Inr ()"
    by (simp_all add: validateChainId_def MAX_SAFE_CHAIN_ID_def)
  with assms show "update g p skip e =
      (Inr (nextState p (store e)),
       e\<lparr> nullifier := increment (nullifier e), store := nextState p (store e) \<rparr>)"
    by (simp add: update_without_accounts)
next
  assume a: "\<not> skip \<and> (c = Finite 4503599627370477 \<or> c = Finite 0 \<or> c = Finite (- 1)
                  \<or> \<not> isInteger c \<or> number_le c 0 \<or> number_gt c MAX_SAFE_CHAIN_ID)"
  then have "\<not> isInteger c \<or> number_le c 0 \<or> number_gt c MAX_SAFE_CHAIN_ID"
    by (auto simp: MAX_SAFE_CHAIN_ID_def)
  then have "validateChainId c = Inl (InvalidChainId c)"
    by (simp add: validateChainId_def)
  with assms a show "update g p skip e = (Inl (InvalidChainId c), e)"
    by (simp add: update_chainId_rejected)
qed

theorem chainId_bound_atomic_witness:
  "get (upd_chainId (noProperties\<lparr>upd_chainId := Present (Some (Finite 4503599627370476))\<rparr>))
     = Some (Finite 4503599627370476)
   \<and> chainId (store (snd (update sampleGetAddress
        (noProperties\<lparr>upd_chainId := Present (Some (Finite 4503599627370476))\<rparr>) False freshEngine)))
     = Some (Finite 4503599627370476)
   \<and> update sampleGetAddress
        (noProperties\<lparr>upd_chainId := Present (Some (Finite 4503599627370477))\<rparr>) False freshEngine
     = (Inl (InvalidChainId (Finite 4503599627370477)), freshEngine)
   \<and> update sampleGetAddress
        (noProperties\<lparr>upd_chainId := Present (Some (Finite 0))\<rparr>) False freshEngine
     = (Inl (InvalidChainId (Finite 0)), freshEngine)
   \<and> update sampleGetAddress
        (noProperties\<lparr>upd_chainId := Present (Some (Finite (- 1)))\<rparr>) False freshEngine
     = (Inl (InvalidChainId (Finite (- 1))), freshEngine)
   \<and> update sampleGetAddress
        (noProperties\<lparr>upd_chainId := Present (Some (Finite (1 / 2)))\<rparr>) False freshEngine
     = (Inl (InvalidChainId (Finite (1 / 2))), freshEngine)
   \<and> update sampleGetAddress
        (noProperties\<lparr>upd_chainId := Present (Some NaN)\<rparr>) False freshEngine
     = (Inl (InvalidChainId NaN), freshEngine)"
proof -
  let ?p = "\<lambda>c. noProperties\<lparr>upd_chainId := Present (Some c)\<rparr>"
  have h: "get (upd_chainId (?p c)) = Some c" for c by simp
  have n: "\<not> isInteger (Finite (1 / 2))" by code_simp
  from chainId_bound_atomic [OF h, of "Finite 4503599627370476" sampleGetAddress False freshEngine]
  have "chainId (store (snd (update sampleGetAddress (?p (Finite 4503599627370476)) False freshEngine)))
     = Some (Finite 4503599627370476)"
    by (simp add: nextState_def Let_def)
  moreover
  from chainId_bound_atomic [OF h, of "Finite 4503599627370477" sampleGetAddress False freshEngine]
  have "update sampleGetAddress (?p (Finite 4503599627370477)) False freshEngine
     = (Inl (InvalidChainId (Finite 4503599627370477)), freshEngine)"
    by simp
  moreover
  from chainId_bound_atomic [OF h, of "Finite 0" sampleGetAddress False freshEngine]
  have "update sampleGetAddress (?p (Finite 0)) False freshEngine
     = (Inl (InvalidChainId (Finite 0)), freshEngine)"
    by simp
  moreover
  from chainId_bound_atomic [OF h, of "Finite (- 1)" sampleGetAddress False freshEngine]
  have "update sampleGetAddress (?p (Finite (- 1))) False freshEngine
     = (Inl (InvalidChainId (Finite (- 1))), freshEngine)"
    by simp
  moreover
  from chainId_bound_atomic [OF h, of NaN sampleGetAddress False freshEngine]
  have "update sampleGetAddress (?p NaN) False freshEngine
     = (Inl (InvalidChainId NaN), freshEngine)"
    by simp
  moreover
  from chainId_bound_atomic [OF h, of "Finite (1 / 2)" sampleGetAddress False freshEngine] n
  have "update sampleGetAddress (?p (Finite (1 / 2))) False freshEngine
     = (Inl (InvalidChainId (Finite (1 / 2))), freshEngine)"
    by simp
  ultimately show ?thesis by simp
qed

text \<open>
  C4. Explicit clear against an omitted property. After an \<^verbatim>\<open>update\<close> that returns, each
  of \<open>accountIndex\<close>, \<open>addingChain\<close>, \<open>switchingChain\<close> and \<open>watchingAsset\<close> holds the
  patch's value when the patch has the property, also when that value is
  \<^verbatim>\<open>undefined\<close> (\<open>Present None\<close>: the field is cleared), and keeps its previous value
  when the patch does not have the property.
\<close>

theorem explicit_clear_versus_omitted:
  assumes "update g p skip e = (Inr s, e')"
  shows "accountIndex s = (case upd_accountIndex p of
                            Absent \<Rightarrow> accountIndex (store e) | Present v \<Rightarrow> v)
    \<and> addingChain s = (case upd_addingChain p of
                         Absent \<Rightarrow> addingChain (store e) | Present v \<Rightarrow> v)
    \<and> switchingChain s = (case upd_switchingChain p of
                            Absent \<Rightarrow> switchingChain (store e) | Present v \<Rightarrow> v)
    \<and> watchingAsset s = (case upd_watchingAsset p of
                           Absent \<Rightarrow> watchingAsset (store e) | Present v \<Rightarrow> v)
    \<and> store e' = s"
proof -
  from assms update_cases [of g p skip e]
  have "s = nextState p (store e)" and "store e' = s" by auto
  then show ?thesis
    by (simp add: nextState_def Let_def split: property.splits)
qed

theorem explicit_clear_versus_omitted_witness:
  "accountIndex (store busyEngine) = Some (Finite 0)
   \<and> update sampleGetAddress (noProperties\<lparr>upd_accountIndex := Present None\<rparr>) False busyEngine
     = (Inr (store (snd (update sampleGetAddress
                (noProperties\<lparr>upd_accountIndex := Present None\<rparr>) False busyEngine))),
        snd (update sampleGetAddress (noProperties\<lparr>upd_accountIndex := Present None\<rparr>) False busyEngine))
   \<and> accountIndex (store (snd (update sampleGetAddress
        (noProperties\<lparr>upd_accountIndex := Present None\<rparr>) False busyEngine))) = None
   \<and> addingChain (store (snd (update sampleGetAddress
        (noProperties\<lparr>upd_accountIndex := Present None\<rparr>) False busyEngine))) = Some ''c''
   \<and> accountIndex (store (snd (update sampleGetAddress
        (noProperties\<lparr>upd_chainId := Present (Some (Finite 5))\<rparr>) False busyEngine)))
     = Some (Finite 0)"
proof -
  let ?clear = "noProperties\<lparr>upd_accountIndex := Present None\<rparr>"
  let ?chain = "noProperties\<lparr>upd_chainId := Present (Some (Finite 5))\<rparr>"
  have v: "validateChainId (Finite 5) = Inr ()"
    by (simp add: validateChainId_def MAX_SAFE_CHAIN_ID_def)
  have b: "accountIndex (store busyEngine) = Some (Finite 0)"
    "addingChain (store busyEngine) = Some ''c''"
    by (simp_all add: update_def nextState_def Let_def)
  have h1: "update sampleGetAddress ?clear False busyEngine
     = (Inr (store (snd (update sampleGetAddress ?clear False busyEngine))),
        snd (update sampleGetAddress ?clear False busyEngine))"
    by (simp add: update_def Let_def)
  have h2: "update sampleGetAddress ?chain False busyEngine
     = (Inr (store (snd (update sampleGetAddress ?chain False busyEngine))),
        snd (update sampleGetAddress ?chain False busyEngine))"
    using v by (simp add: update_def Let_def)
  from explicit_clear_versus_omitted [OF h1] explicit_clear_versus_omitted [OF h2] b h1
  show ?thesis by simp
qed

lemma nextState_keeps_defined:
  "chainId s \<noteq> None \<Longrightarrow> chainId (nextState p s) \<noteq> None"
  "accounts s \<noteq> None \<Longrightarrow> accounts (nextState p s) \<noteq> None"
  by (auto simp: nextState_def Let_def split: option.splits)

text \<open>
  C10. \<^verbatim>\<open>update\<close> never clears \<open>chainId\<close> or \<open>accounts\<close>: for every engine, patch and
  \<open>skipValidation\<close>, a \<open>chainId\<close> (an \<open>accounts\<close>) that was defined before the call is
  defined after it, whether the call returns or throws and also when the patch has
  the property with the value \<^verbatim>\<open>undefined\<close>. Of all the calls, only
  \<^verbatim>\<open>startActivation\<close> and \<^verbatim>\<open>resetState\<close> take a defined \<open>chainId\<close> or \<open>accounts\<close> back
  to unset, and they always do.
\<close>

theorem update_never_clears_chainId_or_accounts:
  "(chainId (store e) \<noteq> None \<longrightarrow> chainId (store (snd (update g p skip e))) \<noteq> None)
   \<and> (accounts (store e) \<noteq> None \<longrightarrow> accounts (store (snd (update g p skip e))) \<noteq> None)
   \<and> (chainId (store e) \<noteq> None \<and> chainId (store (perform g a e)) = None
        \<longrightarrow> a = StartActivation \<or> a = ResetState)
   \<and> (accounts (store e) \<noteq> None \<and> accounts (store (perform g a e)) = None
        \<longrightarrow> a = StartActivation \<or> a = ResetState)
   \<and> chainId (store (snd (startActivation e))) = None
   \<and> accounts (store (snd (startActivation e))) = None
   \<and> chainId (store (snd (resetState e))) = None
   \<and> accounts (store (snd (resetState e))) = None"
proof -
  have u: "chainId (store e) \<noteq> None \<Longrightarrow> chainId (store (snd (update g q k e))) \<noteq> None"
    "accounts (store e) \<noteq> None \<Longrightarrow> accounts (store (snd (update g q k e))) \<noteq> None" for q k
    using update_cases [of g q k e] nextState_keeps_defined [of "store e" q] by auto
  have c: "chainId (store (snd (cancelActivation n e))) = chainId (store e)"
    "accounts (store (snd (cancelActivation n e))) = accounts (store e)" for n
    by (simp_all add: cancelActivation_def)
  have p1: "chainId (store e) \<noteq> None \<and> chainId (store (perform g a e)) = None
        \<longrightarrow> a = StartActivation \<or> a = ResetState"
  proof (cases a)
    case (Update q k)
    with u(1) [of q k] show ?thesis by (cases "chainId (store e)") auto
  qed (use c(1) in auto)
  have p2: "accounts (store e) \<noteq> None \<and> accounts (store (perform g a e)) = None
        \<longrightarrow> a = StartActivation \<or> a = ResetState"
  proof (cases a)
    case (Update q k)
    with u(2) [of q k] show ?thesis by (cases "accounts (store e)") auto
  qed (use c(2) in auto)
  have d: "chainId (store (snd (startActivation e))) = None"
    "accounts (store (snd (startActivation e))) = None"
    "chainId (store (snd (resetState e))) = None"
    "accounts (store (snd (resetState e))) = None"
    by (simp_all add: startActivation_def resetState_def DEFAULT_STATE_def Let_def)
  from u [of p skip] p1 p2 d show ?thesis by blast
qed

lemma connectedEngine_store:
  "store connectedEngine =
     \<lparr> chainId = Some (Finite 5), accounts = Some 0, accountIndex = None, activating = False,
       addingChain = None, switchingChain = None, watchingAsset = None \<rparr>"
  by (simp add: update_def validateChainId_def MAX_SAFE_CHAIN_ID_def validateAccount_def
      validateAccountsFrom.simps nextState_def startActivation_def DEFAULT_STATE_def
      createWeb3ReactStoreAndActions_def Let_def)

theorem update_never_clears_chainId_or_accounts_witness:
  "chainId (store connectedEngine) \<noteq> None
   \<and> accounts (store connectedEngine) \<noteq> None
   \<and> chainId (store (snd (update sampleGetAddress
        (noProperties\<lparr>upd_chainId := Present None, upd_accounts := Present None\<rparr>)
        False connectedEngine))) \<noteq> None
   \<and> accounts (store (snd (update sampleGetAddress
        (noProperties\<lparr>upd_chainId := Present None, upd_accounts := Present None\<rparr>)
        False connectedEngine))) \<noteq> None
   \<and> chainId (store (perform sampleGetAddress ResetState connectedEngine)) = None
   \<and> accounts (store (perform sampleGetAddress ResetState connectedEngine)) = None"
proof -
  have h: "chainId (store connectedEngine) \<noteq> None" "accounts (store connectedEngine) \<noteq> None"
    using connectedEngine_store by simp_all
  have r: "chainId (store (perform sampleGetAddress ResetState connectedEngine)) = None"
    "accounts (store (perform sampleGetAddress ResetState connectedEngine)) = None"
    by (simp_all add: resetState_def DEFAULT_STATE_def)
  from update_never_clears_chainId_or_accounts [of connectedEngine sampleGetAddress
      "noProperties\<lparr>upd_chainId := Present None, upd_accounts := Present None\<rparr>" False ResetState] h r
  show ?thesis by blast
qed

text \<open>
  C9. An \<^verbatim>\<open>update\<close> that throws does not move the nullifier, so the cancel closure of
  the latest \<^verbatim>\<open>startActivation\<close> still takes effect after it. \<open>c\<close> is the value that
  \<^verbatim>\<open>startActivation\<close> captured, \<open>e1\<close> the engine it left, \<open>e2\<close> the engine after an
  \<^verbatim>\<open>update\<close> that threw: counter and store are those of \<open>e1\<close>, the cancel closure sets
  \<open>activating\<close> to false, and it returns and leaves behind what it would have without
  the failed call.
\<close>

theorem failed_update_keeps_cancel_effective:
  assumes "startActivation e0 = (c, e1)"
    and "update g p skip e1 = (Inl err, e2)"
  shows "nullifier e2 = nullifier e1 \<and> store e2 = store e1
    \<and> activating (fst (cancelActivation c e2)) = False
    \<and> fst (cancelActivation c e2) = fst (cancelActivation c e1)
    \<and> nullifier (snd (cancelActivation c e2)) = nullifier (snd (cancelActivation c e1))
    \<and> observe (snd (cancelActivation c e2)) = observe (snd (cancelActivation c e1))"
proof -
  from assms(1) have n: "nullifier e1 = c" by (rule startActivation_captures)
  from assms(1) have a: "accounts (store e1) = None"
    by (auto simp: startActivation_def DEFAULT_STATE_def Let_def)
  from assms(2) update_cases [of g p skip e1]
  have u: "store e2 = store e1" "nullifier e2 = nullifier e1" by auto
  with n a show ?thesis
    by (simp add: cancelActivation_def observe_def)
qed

theorem failed_update_keeps_cancel_effective_witness:
  "startActivation mixedEngine = (1, snd (startActivation mixedEngine))
   \<and> fst (update sampleGetAddress (noProperties\<lparr>upd_accounts := Present (Some 0)\<rparr>) False
        (snd (startActivation mixedEngine))) = Inl (InvalidAccount ''zz'')
   \<and> activating (fst (cancelActivation 1
        (snd (update sampleGetAddress (noProperties\<lparr>upd_accounts := Present (Some 0)\<rparr>) False
          (snd (startActivation mixedEngine)))))) = False
   \<and> fst (cancelActivation 1
        (snd (update sampleGetAddress (noProperties\<lparr>upd_accounts := Present (Some 0)\<rparr>) False
          (snd (startActivation mixedEngine)))))
     = fst (cancelActivation 1 (snd (startActivation mixedEngine)))"
proof -
  let ?p = "noProperties\<lparr>upd_accounts := Present (Some 0)\<rparr>"
  let ?e1 = "snd (startActivation mixedEngine)"
  have h1: "startActivation mixedEngine = (1, ?e1)"
    by (simp add: startActivation_def createWeb3ReactStoreAndActions_def increment_def
        MAX_EXACT_def Let_def)
  have f: "fst (update sampleGetAddress ?p False ?e1) = Inl (InvalidAccount ''zz'')"
    by (simp add: update_def validateAccount_def validateAccountsFrom.simps
        startActivation_def createWeb3ReactStoreAndActions_def Let_def)
  then have h2: "update sampleGetAddress ?p False ?e1
      = (Inl (InvalidAccount ''zz''), snd (update sampleGetAddress ?p False ?e1))"
    by (simp add: prod_eq_iff)
  from failed_update_keeps_cancel_effective [OF h1 h2] h1 f show ?thesis by blast
qed

subsection \<open>The validation loop\<close>

lemma validateAccountsFrom_other:
  "r' \<noteq> r \<Longrightarrow> snd (validateAccountsFrom g r i h) r' = h r'"
proof (induction g r i h rule: validateAccountsFrom.induct)
  case (1 g r i h)
  show ?case
  proof (cases "i < length (h r)")
    case False
    then show ?thesis by (simp add: validateAccountsFrom.simps [of g r i h])
  next
    case True
    show ?thesis
    proof (cases "g (h r ! i)")
      case None
      with True show ?thesis
        by (simp add: validateAccountsFrom.simps [of g r i h] validateAccount_def)
    next
      case (Some a)
      with True "1.prems" "1.IH" [of a] show ?thesis
        by (simp add: validateAccountsFrom.simps [of g r i h] validateAccount_def fun_upd_def)
    qed
  qed
qed

lemma validateAccountsFrom_passes:
  "fst (validateAccountsFrom g r i h) = None \<longleftrightarrow> (\<forall>x \<in> set (drop i (h r)). g x \<noteq> None)"
proof (induction g r i h rule: validateAccountsFrom.induct)
  case (1 g r i h)
  show ?case
  proof (cases "i < length (h r)")
    case False
    then show ?thesis by (simp add: validateAccountsFrom.simps [of g r i h])
  next
    case True
    then have d: "drop i (h r) = h r ! i # drop (Suc i) (h r)"
      by (simp add: Cons_nth_drop_Suc)
    show ?thesis
    proof (cases "g (h r ! i)")
      case None
      with True d show ?thesis
        by (simp add: validateAccountsFrom.simps [of g r i h] validateAccount_def)
    next
      case (Some a)
      with True d "1.IH" [of a] show ?thesis
        by (simp add: validateAccountsFrom.simps [of g r i h] validateAccount_def fun_upd_def)
    qed
  qed
qed

lemma validateAccountsFrom_normalises:
  "fst (validateAccountsFrom g r i h) = None \<Longrightarrow>
   snd (validateAccountsFrom g r i h) r = take i (h r) @ map (the \<circ> g) (drop i (h r))"
proof (induction g r i h rule: validateAccountsFrom.induct)
  case (1 g r i h)
  show ?case
  proof (cases "i < length (h r)")
    case False
    then show ?thesis by (simp add: validateAccountsFrom.simps [of g r i h])
  next
    case True
    then have d: "drop i (h r) = h r ! i # drop (Suc i) (h r)"
      by (simp add: Cons_nth_drop_Suc)
    show ?thesis
    proof (cases "g (h r ! i)")
      case None
      with True "1.prems" show ?thesis
        by (simp add: validateAccountsFrom.simps [of g r i h] validateAccount_def)
    next
      case (Some a)
      with True "1.prems"
      have "fst (validateAccountsFrom g r (Suc i) (h(r := (h r)[i := a]))) = None"
        by (simp add: validateAccountsFrom.simps [of g r i h] validateAccount_def)
      with True Some "1.IH" [of a]
      have "snd (validateAccountsFrom g r (Suc i) (h(r := (h r)[i := a]))) r
          = take (Suc i) ((h r)[i := a]) @ map (the \<circ> g) (drop (Suc i) (h r))"
        by (simp add: validateAccount_def fun_upd_def)
      moreover from True have "take (Suc i) ((h r)[i := a]) = take i (h r) @ [a]"
        by (simp add: take_Suc_conv_app_nth)
      ultimately show ?thesis
        using True Some d
        by (simp add: validateAccountsFrom.simps [of g r i h] validateAccount_def)
    qed
  qed
qed

lemma update_heap_other:
  "get (upd_accounts p) \<noteq> Some r' \<Longrightarrow> heap (snd (update g p skip e)) r' = heap e r'"
proof (cases "get (upd_accounts p)")
  case None
  then show ?thesis
    by (auto simp: update_def Let_def split: option.splits sum.splits)
next
  case (Some r)
  assume "get (upd_accounts p) \<noteq> Some r'"
  with Some have "r' \<noteq> r" by simp
  then have o: "snd (validateAccountsFrom g r 0 (heap e)) r' = heap e r'"
    by (rule validateAccountsFrom_other)
  obtain eo h where v: "validateAccountsFrom g r 0 (heap e) = (eo, h)"
    by (cases "validateAccountsFrom g r 0 (heap e)")
  with o have "h r' = heap e r'" by simp
  with Some v show ?thesis
    by (auto simp: update_def Let_def split: option.splits sum.splits)
qed

text \<open>
  What \<^verbatim>\<open>update\<close> does with the accounts of a patch when it validates and returns: every
  entry of the array passed \<^verbatim>\<open>getAddress\<close>, the state refers to the patch's array, and
  the array now holds the normalised form of each entry it held.
\<close>

lemma update_normalises_accounts:
  assumes "update g p False e = (Inr s, e')"
    and "get (upd_accounts p) = Some r"
  shows "accounts s = Some r \<and> store e' = s
    \<and> heap e' r = map (the \<circ> g) (heap e r)
    \<and> (\<forall>x \<in> set (heap e r). g x \<noteq> None)"
proof -
  obtain eo h where v: "validateAccountsFrom g r 0 (heap e) = (eo, h)"
    by (cases "validateAccountsFrom g r 0 (heap e)")
  with assms have r: "eo = None" "heap e' = h" "s = nextState p (store e)" "store e' = s"
    by (auto simp: update_def Let_def split: option.splits sum.splits if_splits)
  from v r(1) have f: "fst (validateAccountsFrom g r 0 (heap e)) = None" by simp
  then have "snd (validateAccountsFrom g r 0 (heap e)) r = map (the \<circ> g) (heap e r)"
    using validateAccountsFrom_normalises [of g r 0 "heap e"] by simp
  with v r(2) have "heap e' r = map (the \<circ> g) (heap e r)" by simp
  moreover from f have "\<forall>x \<in> set (heap e r). g x \<noteq> None"
    using validateAccountsFrom_passes [of g r 0 "heap e"] by simp
  moreover from assms(2) r(3) have "accounts s = Some r"
    by (simp add: nextState_def Let_def)
  ultimately show ?thesis using r(4) by simp
qed

text \<open>
  An \<^verbatim>\<open>update\<close> that throws shows nothing to a reader of the store, provided the
  patch's array is not the array the state already refers to.
\<close>

lemma failed_update_without_alias:
  assumes "update g p skip e = (Inl err, e')"
    and "accounts (store e) \<noteq> get (upd_accounts p)"
  shows "observe e' = observe e \<and> nullifier e' = nullifier e"
proof -
  from assms(1) update_cases [of g p skip e]
  have u: "store e' = store e" "nullifier e' = nullifier e" by auto
  show ?thesis
  proof (cases "accounts (store e)")
    case None
    with u show ?thesis by (simp add: observe_def)
  next
    case (Some r')
    with assms(2) have "get (upd_accounts p) \<noteq> Some r'" by auto
    then have "heap (snd (update g p skip e)) r' = heap e r'"
      by (rule update_heap_other)
    with assms(1) have "heap e' r' = heap e r'" by simp
    with u Some show ?thesis by (simp add: observe_def)
  qed
qed

text \<open>
  C6. Stored accounts are in normalised form after a validating \<^verbatim>\<open>update\<close>
  (\<open>update_normalises_accounts\<close>), and a failing one shows nothing when the patch brings
  an array of its own (\<open>failed_update_without_alias\<close>). But the loop writes into the
  patch's array as it goes, and the state keeps the array of an earlier patch by
  reference. Here \<^verbatim>\<open>arr = [a, b]\<close>, \<^verbatim>\<open>getAddress\<close> normalises \<open>a\<close> to a different string
  \<open>a'\<close> and rejects \<open>b\<close>: after \<^verbatim>\<open>update({accounts: arr}, true)\<close> the state's accounts are
  \<^verbatim>\<open>arr\<close>, and \<^verbatim>\<open>update({accounts: arr})\<close> then throws on \<open>b\<close> with the state's accounts
  changed from \<open>[a, b]\<close> to \<open>[a', b]\<close>.
\<close>

theorem failed_update_rewrites_stored_accounts:
  assumes "getAddress a = Some a'" and "a' \<noteq> a" and "getAddress b = None"
    and "heap e r = [a, b]"
  shows "observe (snd (update getAddress (noProperties\<lparr>upd_accounts := Present (Some r)\<rparr>) True e))
      = (store (snd (update getAddress (noProperties\<lparr>upd_accounts := Present (Some r)\<rparr>) True e)),
         Some [a, b])
    \<and> fst (update getAddress (noProperties\<lparr>upd_accounts := Present (Some r)\<rparr>) False
        (snd (update getAddress (noProperties\<lparr>upd_accounts := Present (Some r)\<rparr>) True e)))
      = Inl (InvalidAccount b)
    \<and> observe (snd (update getAddress (noProperties\<lparr>upd_accounts := Present (Some r)\<rparr>) False
        (snd (update getAddress (noProperties\<lparr>upd_accounts := Present (Some r)\<rparr>) True e))))
      = (store (snd (update getAddress (noProperties\<lparr>upd_accounts := Present (Some r)\<rparr>) True e)),
         Some [a', b])
    \<and> observe (snd (update getAddress (noProperties\<lparr>upd_accounts := Present (Some r)\<rparr>) False
        (snd (update getAddress (noProperties\<lparr>upd_accounts := Present (Some r)\<rparr>) True e))))
      \<noteq> observe (snd (update getAddress (noProperties\<lparr>upd_accounts := Present (Some r)\<rparr>) True e))"
proof -
  define p where "p = noProperties\<lparr>upd_accounts := Present (Some r)\<rparr>"
  define e1 where "e1 = snd (update getAddress p True e)"
  have a1: "accounts (store e1) = Some r"
    by (simp add: e1_def p_def update_def nextState_def Let_def)
  have h1: "heap e1 r = [a, b]"
    using assms(4) by (simp add: e1_def p_def update_def Let_def)
  have g: "get (upd_chainId p) = None" "get (upd_accounts p) = Some r"
    by (simp_all add: p_def)
  have v: "validateAccountsFrom getAddress r 0 (heap e1)
      = (Some (InvalidAccount b), (heap e1)(r := [a', b]))"
    using assms(1,3) h1
    by (simp add: validateAccountsFrom.simps validateAccount_def)
  have u: "update getAddress p False e1
      = (Inl (InvalidAccount b), e1\<lparr> heap := (heap e1)(r := [a', b]) \<rparr>)"
    using g v by (simp add: update_def)
  from a1 h1 have o1: "observe e1 = (store e1, Some [a, b])"
    by (simp add: observe_def)
  from u a1 have o2: "observe (snd (update getAddress p False e1)) = (store e1, Some [a', b])"
    by (simp add: observe_def)
  from u have f: "fst (update getAddress p False e1) = Inl (InvalidAccount b)" by simp
  from o1 o2 assms(2)
  have "observe (snd (update getAddress p False e1)) \<noteq> observe e1" by simp
  with o1 o2 f show ?thesis
    unfolding e1_def p_def by blast
qed

theorem failed_update_rewrites_stored_accounts_witness:
  "sampleGetAddress ''0xab'' = Some ''0xAb'' \<and> ''0xAb'' \<noteq> ''0xab''
   \<and> sampleGetAddress ''zz'' = None
   \<and> heap mixedEngine 0 = [''0xab'', ''zz'']
   \<and> fst (update sampleGetAddress (noProperties\<lparr>upd_accounts := Present (Some 0)\<rparr>) False
        (snd (update sampleGetAddress (noProperties\<lparr>upd_accounts := Present (Some 0)\<rparr>) True
          mixedEngine)))
      = Inl (InvalidAccount ''zz'')
   \<and> observe (snd (update sampleGetAddress (noProperties\<lparr>upd_accounts := Present (Some 0)\<rparr>) False
        (snd (update sampleGetAddress (noProperties\<lparr>upd_accounts := Present (Some 0)\<rparr>) True
          mixedEngine))))
      \<noteq> observe (snd (update sampleGetAddress (noProperties\<lparr>upd_accounts := Present (Some 0)\<rparr>) True
          mixedEngine))"
proof -
  have h1: "sampleGetAddress ''0xab'' = Some ''0xAb''" by simp
  have h2: "''0xAb'' \<noteq> ''0xab''" by simp
  have h3: "sampleGetAddress ''zz'' = None" by simp
  have h4: "heap mixedEngine 0 = [''0xab'', ''zz'']"
    by (simp add: createWeb3ReactStoreAndActions_def)
  from failed_update_rewrites_stored_accounts [OF h1 h2 h3 h4] h1 h2 h3 h4
  show ?thesis by blast
qed

subsection \<open>The activating flag\<close>

lemma validateChainId_truthy:
  "validateChainId c = Inr () \<Longrightarrow> truthy c"
  by (cases c) (auto simp: validateChainId_def split: if_splits)

text \<open>
  C2, as the code has it. From a state with \<open>activating\<close> true, an \<^verbatim>\<open>update\<close> that returns
  leaves \<open>activating\<close> false exactly when the resulting \<open>chainId\<close> is defined and truthy
  (neither \<open>0\<close> nor NaN) and the resulting \<open>accounts\<close> is defined: an array is truthy
  whatever its length, so the empty list counts. A patch that has a \<open>chainId\<close> passing
  \<open>validateChainId\<close> and an \<open>accounts\<close> array sets \<open>activating\<close> to false in that call.
\<close>

theorem activating_cleared_when_chainId_truthy_and_accounts_defined:
  assumes "activating (store e)"
    and "update g p skip e = (Inr s, e')"
  shows "(activating s = False)
      = ((case chainId s of None \<Rightarrow> False | Some c \<Rightarrow> truthy c) \<and> accounts s \<noteq> None)
    \<and> ((case get (upd_chainId p) of None \<Rightarrow> False | Some c \<Rightarrow> validateChainId c = Inr ())
        \<and> get (upd_accounts p) \<noteq> None \<longrightarrow> activating s = False)"
proof -
  from assms(2) update_cases [of g p skip e]
  have s: "s = nextState p (store e)" by auto
  with assms(1) have iff: "(activating s = False)
      = ((case chainId s of None \<Rightarrow> False | Some c \<Rightarrow> truthy c) \<and> accounts s \<noteq> None)"
    by (simp add: nextState_def Let_def)
  have "activating s = False"
    if "(case get (upd_chainId p) of None \<Rightarrow> False | Some c \<Rightarrow> validateChainId c = Inr ())
        \<and> get (upd_accounts p) \<noteq> None"
  proof -
    from that obtain c r where c: "get (upd_chainId p) = Some c" "validateChainId c = Inr ()"
      and r: "get (upd_accounts p) = Some r"
      by (auto split: option.splits)
    from c(2) have "truthy c" by (rule validateChainId_truthy)
    with c(1) r s have "(case chainId s of None \<Rightarrow> False | Some c \<Rightarrow> truthy c) \<and> accounts s \<noteq> None"
      by (simp add: nextState_def Let_def)
    with iff show ?thesis by simp
  qed
  with iff show ?thesis by blast
qed

theorem activating_cleared_when_chainId_truthy_and_accounts_defined_witness:
  "activating (store (snd (startActivation singletonEngine)))
   \<and> update sampleGetAddress
        (noProperties\<lparr> upd_chainId := Present (Some (Finite 5)), upd_accounts := Present (Some 0) \<rparr>)
        False (snd (startActivation singletonEngine))
      = (Inr (store connectedEngine), connectedEngine)
   \<and> validateChainId (Finite 5) = Inr ()
   \<and> activating (store connectedEngine) = False"
proof -
  let ?e = "snd (startActivation (createWeb3ReactStoreAndActions (\<lambda>r. [''0xab''])
      :: (string, string, string) engine))"
  let ?p = "noProperties\<lparr> upd_chainId := Present (Some (Finite 5)),
      upd_accounts := Present (Some 0) \<rparr>"
  have h1: "activating (store ?e)"
    by (simp add: startActivation_def Let_def)
  have v: "validateChainId (Finite 5) = Inr ()"
    by (simp add: validateChainId_def MAX_SAFE_CHAIN_ID_def)
  have "fst (update sampleGetAddress ?p False ?e) = Inr (store connectedEngine)"
    using v
    by (simp add: update_def validateAccount_def validateAccountsFrom.simps
        startActivation_def createWeb3ReactStoreAndActions_def Let_def)
  then have h2: "update sampleGetAddress ?p False ?e = (Inr (store connectedEngine), connectedEngine)"
    by (simp add: prod_eq_iff)
  have c: "case get (upd_chainId ?p) of None \<Rightarrow> False | Some c \<Rightarrow> validateChainId c = Inr ()"
    using v by simp
  have a: "get (upd_accounts ?p) \<noteq> None" by simp
  from activating_cleared_when_chainId_truthy_and_accounts_defined [OF h1 h2] c a
  have "activating (store connectedEngine) = False" by blast
  with h1 h2 v show ?thesis by blast
qed

text \<open>
  Where the code departs from C2 as the specification words it. After
  \<^verbatim>\<open>startActivation()\<close>, \<^verbatim>\<open>update({chainId: 1, accounts: []})\<close> returns with \<open>activating\<close>
  false although the resulting accounts are the empty list; and
  \<^verbatim>\<open>update({chainId: 0, accounts: ['0xab']}, true)\<close> returns with \<open>activating\<close> still true
  although the resulting \<open>chainId\<close> and \<open>accounts\<close> are both defined and the accounts are
  not empty.
\<close>

theorem activating_ignores_emptiness_of_accounts:
  "activating (store (snd (startActivation freshEngine)))
   \<and> fst (update sampleGetAddress
        (noProperties\<lparr> upd_chainId := Present (Some (Finite 1)), upd_accounts := Present (Some 0) \<rparr>)
        False (snd (startActivation freshEngine)))
      = Inr \<lparr> chainId = Some (Finite 1), accounts = Some 0, accountIndex = None,
              activating = False, addingChain = None, switchingChain = None,
              watchingAsset = None \<rparr>
   \<and> heap (snd (update sampleGetAddress
        (noProperties\<lparr> upd_chainId := Present (Some (Finite 1)), upd_accounts := Present (Some 0) \<rparr>)
        False (snd (startActivation freshEngine)))) 0 = []
   \<and> activating (store (snd (startActivation singletonEngine)))
   \<and> fst (update sampleGetAddress
        (noProperties\<lparr> upd_chainId := Present (Some (Finite 0)), upd_accounts := Present (Some 0) \<rparr>)
        True (snd (startActivation singletonEngine)))
      = Inr \<lparr> chainId = Some (Finite 0), accounts = Some 0, accountIndex = None,
              activating = True, addingChain = None, switchingChain = None,
              watchingAsset = None \<rparr>
   \<and> heap (snd (update sampleGetAddress
        (noProperties\<lparr> upd_chainId := Present (Some (Finite 0)), upd_accounts := Present (Some 0) \<rparr>)
        True (snd (startActivation singletonEngine)))) 0
      = [''0xab'']"
  by (simp add: update_def validateChainId_def MAX_SAFE_CHAIN_ID_def validateAccount_def
      validateAccountsFrom.simps nextState_def startActivation_def DEFAULT_STATE_def
      createWeb3ReactStoreAndActions_def Let_def)

end
